theory Spec2Isabelle
  imports Main
begin

section \<open>Python values\<close>

text \<open>
  A Python \<open>str\<close> is a sequence of Unicode code points, and \<open>len\<close> and slicing count
  code points. A string is therefore a list of code points (natural numbers); \<open>asc\<close>
  embeds an ASCII literal, and the accented letters and pictographs of the source are
  written as their code points.
\<close>

type_synonym pystr = "nat list"

definition asc :: "string \<Rightarrow> pystr" where
  "asc s = map of_char s"

text \<open>The exceptions that the modelled code can let escape.\<close>

datatype error =
    ConnectionError
  | Timeout
  | JSONDecodeError
  | AttributeError
  | OSError
  | UnicodeDecodeError
  | EmbedderError
  | ChromaError

subsection \<open>Slicing\<close>

text \<open>
  \<open>xs[start:stop]\<close> and \<open>xs[start:]\<close>: a negative bound counts from the end, and both
  bounds are clamped to \<open>0 .. len(xs)\<close>; an empty range gives the empty sequence.
\<close>

definition slice_index :: "nat \<Rightarrow> int \<Rightarrow> nat" where
  "slice_index n i =
     (if i < 0 then (if i + int n < 0 then 0 else nat (i + int n))
      else (if int n < i then n else nat i))"

definition py_slice :: "'a list \<Rightarrow> int \<Rightarrow> int \<Rightarrow> 'a list" where
  "py_slice xs start stop =
     take (slice_index (length xs) stop - slice_index (length xs) start)
          (drop (slice_index (length xs) start) xs)"

definition py_slice_from :: "'a list \<Rightarrow> int \<Rightarrow> 'a list" where
  "py_slice_from xs start = drop (slice_index (length xs) start) xs"

subsection \<open>String methods\<close>

definition endswith :: "pystr \<Rightarrow> pystr \<Rightarrow> bool" where
  "endswith s suffix =
     (length suffix \<le> length s \<and> drop (length s - length suffix) s = suffix)"

text \<open>
  \<open>s.replace(old, new)\<close> replaces the non-overlapping occurrences of \<open>old\<close> from left
  to right; with an empty \<open>old\<close> it puts \<open>new\<close> before every character and at the end.
\<close>

function replace :: "pystr \<Rightarrow> pystr \<Rightarrow> pystr \<Rightarrow> pystr" where
  "replace old new s =
     (if old = [] then new @ concat (map (\<lambda>c. c # new) s)
      else if s = [] then []
      else if take (length old) s = old then new @ replace old new (drop (length old) s)
      else hd s # replace old new (tl s))"
  by pat_completeness auto
termination
  by (relation "measure (\<lambda>(old, new, s). length s)") auto

declare replace.simps [simp del]

text \<open>The characters for which \<open>str.isspace\<close> holds; \<open>str.strip()\<close> removes them at both ends.\<close>

definition isspace :: "nat \<Rightarrow> bool" where
  "isspace c =
     ((9 \<le> c \<and> c \<le> 13) \<or> (28 \<le> c \<and> c \<le> 32) \<or> c = 133 \<or> c = 160 \<or> c = 5760
      \<or> (8192 \<le> c \<and> c \<le> 8202) \<or> c = 8232 \<or> c = 8233 \<or> c = 8239 \<or> c = 8287
      \<or> c = 12288)"

definition strip :: "pystr \<Rightarrow> pystr" where
  "strip s = rev (dropWhile isspace (rev (dropWhile isspace s)))"

fun join :: "pystr \<Rightarrow> pystr list \<Rightarrow> pystr" where
  "join sep [] = []"
| "join sep [x] = x"
| "join sep (x # y # ys) = x @ sep @ join sep (y # ys)"

text \<open>The decimal numeral of a natural number, as \<open>str(i)\<close> and an f-string print it.\<close>

fun str_nat :: "nat \<Rightarrow> pystr" where
  "str_nat n = (if n < 10 then [48 + n] else str_nat (n div 10) @ [48 + n mod 10])"

declare str_nat.simps [simp del]

section \<open>Loading documents\<close>

record document =
  name :: pystr
  content :: pystr

text \<open>
  A directory is the list of its entries in the order \<open>os.listdir\<close> returns them, each
  with what opening and reading it as UTF-8 text gives: the text, or the exception
  raised. The argument of \<open>load_documents\<close> is what \<open>os.listdir\<close> gives for the folder:
  that list, or an exception when the folder cannot be listed.
\<close>

type_synonym directory = "(pystr \<times> (error + pystr)) list"

fun load_loop :: "directory \<Rightarrow> document list \<Rightarrow> error + document list" where
  "load_loop [] docs = Inr docs"
| "load_loop ((filename, file) # rest) docs =
     (if endswith filename (asc ''.txt'') then
        (case file of
           Inl e \<Rightarrow> Inl e
         | Inr text \<Rightarrow>
             load_loop rest
               (docs @ [\<lparr>name = filename,
                         content = strip (replace (asc ''  '') (asc '' '')
                                     (replace [10] (asc '' '') text))\<rparr>]))
      else load_loop rest docs)"

definition load_documents :: "error + directory \<Rightarrow> error + document list" where
  "load_documents folder =
     (case folder of Inl e \<Rightarrow> Inl e | Inr entries \<Rightarrow> load_loop entries [])"

section \<open>Chunking\<close>

text \<open>
  The \<open>while\<close> loop of \<open>chunk_text\<close>, with the list of chunks and the offset as its
  state. Nothing bounds the number of iterations, so the loop is a partial function:
  \<open>None\<close> is the run that never leaves the loop.
\<close>

partial_function (option) chunk_loop ::
  "'a list \<Rightarrow> int \<Rightarrow> int \<Rightarrow> 'a list list \<Rightarrow> int \<Rightarrow> 'a list list option" where
  "chunk_loop text chunk_size overlap chunks start =
     (if start < int (length text)
      then chunk_loop text chunk_size overlap
             (chunks @ [py_slice text start (start + chunk_size)])
             (start + (chunk_size - overlap))
      else Some chunks)"

definition chunk_text :: "'a list \<Rightarrow> int \<Rightarrow> int \<Rightarrow> 'a list list option" where
  "chunk_text text chunk_size overlap = chunk_loop text chunk_size overlap [] 0"

text \<open>
  The windows of a text, in closed form: window \<open>k\<close> holds the (at most) \<open>sz\<close>
  characters from offset \<open>k * s\<close> on, for every offset \<open>k * s\<close> below the length of the
  text. This is not code of the repository; \<open>chunk_text_windows\<close> shows that the loop
  computes it when the step \<open>s = chunk_size - overlap\<close> is positive.
\<close>

definition windows :: "'a list \<Rightarrow> nat \<Rightarrow> nat \<Rightarrow> 'a list list" where
  "windows text sz s =
     map (\<lambda>k. take sz (drop (k * s) text)) [0 ..< (length text + s - 1) div s]"

section \<open>Building the index\<close>

text \<open>
  One entry of the collection, as one call of \<open>collection.add\<close> stores it. The
  collection is the list of its entries in insertion order; embeddings are values of
  an arbitrary type \<open>'e\<close>.
\<close>

record 'e entry =
  entry_id :: pystr
  entry_document :: pystr
  entry_source :: pystr
  entry_embedding :: 'e

text \<open>
  The collaborators outside the repository: the sentence embedder, the ranking of the
  vector store (it returns the \<open>documents\<close> field of the query result) and the HTTP
  call to the generation backend. Each may raise.
\<close>

datatype json = JStr pystr | JObj "(pystr \<times> json) list" | JOther

record response =
  status_code :: int
  body_text :: pystr
  body_json :: "error + json"

record 'e env =
  encode :: "pystr \<Rightarrow> error + 'e"
  query :: "'e entry list \<Rightarrow> 'e \<Rightarrow> nat \<Rightarrow> error + pystr list list"
  post :: "pystr \<Rightarrow> error + response"

fun add_chunks ::
  "(pystr \<Rightarrow> error + 'e) \<Rightarrow> pystr \<Rightarrow> (nat \<times> pystr) list \<Rightarrow> 'e entry list
   \<Rightarrow> (error + unit) \<times> 'e entry list" where
  "add_chunks enc nm [] coll = (Inr (), coll)"
| "add_chunks enc nm ((i, chunk) # rest) coll =
     (case enc chunk of
        Inl e \<Rightarrow> (Inl e, coll)
      | Inr emb \<Rightarrow>
          add_chunks enc nm rest
            (coll @ [\<lparr>entry_id = nm @ asc ''_'' @ str_nat i,
                      entry_document = nm @ asc '': '' @ chunk,
                      entry_source = nm,
                      entry_embedding = emb\<rparr>]))"

fun index_docs ::
  "(pystr \<Rightarrow> error + 'e) \<Rightarrow> document list \<Rightarrow> 'e entry list
   \<Rightarrow> ((error + unit) \<times> 'e entry list) option" where
  "index_docs enc [] coll = Some (Inr (), coll)"
| "index_docs enc (doc # docs) coll =
     (case chunk_text (content doc) 500 50 of
        None \<Rightarrow> None
      | Some chunks \<Rightarrow>
          (case add_chunks enc (name doc) (enumerate 0 chunks) coll of
             (Inl e, coll') \<Rightarrow> Some (Inl e, coll')
           | (Inr u, coll') \<Rightarrow> index_docs enc docs coll'))"

definition ensure_index ::
  "'e env \<Rightarrow> error + directory \<Rightarrow> 'e entry list
   \<Rightarrow> ((error + unit) \<times> 'e entry list) option" where
  "ensure_index ev folder coll =
     (if length (map entry_id coll) = 0 then
        (case load_documents folder of
           Inl e \<Rightarrow> Some (Inl e, coll)
         | Inr docs \<Rightarrow> index_docs (encode ev) docs coll)
      else Some (Inr (), coll))"

section \<open>Answering a question\<close>

record turn =
  user :: pystr
  bot :: pystr

text \<open>
  The process state that \<open>ask_ollama\<close> reads and writes: the collection, the
  conversation history, and the prompts posted to the generation backend so far (the
  effect of \<open>requests.post\<close> on the world).
\<close>

record 'e state =
  collection :: "'e entry list"
  conversation_history :: "turn list"
  posted :: "pystr list"

definition search_relevant_chunks ::
  "'e env \<Rightarrow> 'e entry list \<Rightarrow> pystr \<Rightarrow> nat \<Rightarrow> error + pystr list" where
  "search_relevant_chunks ev coll question top_k =
     (case encode ev question of
        Inl e \<Rightarrow> Inl e
      | Inr q_emb \<Rightarrow>
          (case query ev coll q_emb top_k of
             Inl e \<Rightarrow> Inl e
           | Inr documents \<Rightarrow> Inr (if documents \<noteq> [] then hd documents else [])))"

definition render_turn :: "turn \<Rightarrow> pystr" where
  "render_turn msg =
     asc ''Felhaszn'' @ [225] @ asc ''l'' @ [243] @ asc '': '' @ user msg
     @ [10] @ asc ''Asszisztens: '' @ bot msg"

text \<open>The four fixed pieces of the prompt template, around the three interpolated fields.\<close>

definition prompt_rules :: pystr where
  "prompt_rules =
     [10]
     @ asc ''Te egy magyar nyelv'' @ [369] @ asc '' szak'' @ [233] @ asc ''rt'' @ [337]
     @ asc '' asszisztens vagy, aki dokumentumok alapj'' @ [225] @ asc ''n v'' @ [225]
     @ asc ''laszol.'' @ [10]
     @ [10]
     @ [129513] @ asc '' Szab'' @ [225] @ asc ''lyok:'' @ [10]
     @ asc ''- Mindig magyarul v'' @ [225] @ asc ''laszolj.'' @ [10]
     @ asc ''- Csak a dokumentumr'' @ [233] @ asc ''szletekre t'' @ [225]
     @ asc ''maszkodj.'' @ [10]
     @ asc ''- Ha nincs relev'' @ [225] @ asc ''ns inform'' @ [225] @ asc ''ci'' @ [243]
     @ asc '': '' @ [34] @ asc ''Nem tal'' @ [225] @ asc ''lhat'' @ [243]
     @ asc '' a dokumentumban.'' @ [34] @ [10]
     @ asc ''- A besz'' @ [233] @ asc ''lget'' @ [233] @ asc ''s folyamatoss'' @ [225]
     @ asc ''g'' @ [225] @ asc ''t tartsd fenn: vedd figyelembe a kor'' @ [225]
     @ asc ''bbi k'' @ [233] @ asc ''rd'' @ [233] @ asc ''seket is.'' @ [10]
     @ asc ''- L'' @ [233] @ asc ''gy r'' @ [246] @ asc ''vid, pontos, logikus.'' @ [10]
     @ [10]
     @ [128196] @ asc '' Dokumentumr'' @ [233] @ asc ''szletek:'' @ [10]"

definition prompt_history_heading :: pystr where
  "prompt_history_heading =
     [10, 10, 128172] @ asc '' Kor'' @ [225] @ asc ''bbi besz'' @ [233] @ asc ''lget''
     @ [233] @ asc ''s:'' @ [10]"

definition prompt_question_heading :: pystr where
  "prompt_question_heading =
     [10, 10, 10067] @ asc '' Aktu'' @ [225] @ asc ''lis k'' @ [233] @ asc ''rd'' @ [233]
     @ asc ''s:'' @ [10]"

definition prompt_answer_heading :: pystr where
  "prompt_answer_heading =
     [10, 10, 129504] @ asc '' V'' @ [225] @ asc ''lasz (magyarul):'' @ [10]"

definition api_error_message :: pystr where
  "api_error_message =
     [9888, 65039] @ asc '' Hiba az Ollama API h'' @ [237] @ asc ''v'' @ [225]
     @ asc ''sakor''"

definition empty_answer_message :: pystr where
  "empty_answer_message =
     [9888, 65039] @ asc '' '' @ [220] @ asc ''res v'' @ [225] @ asc ''lasz '' @ [233]
     @ asc ''rkezett.''"

text \<open>
  \<open>data.get("response", "").strip()\<close>: only a JSON object has \<open>get\<close>, and only a string
  has \<open>strip\<close>; anything else raises \<open>AttributeError\<close>. A parsed JSON object is a
  dictionary, given as the list of its members with distinct keys; \<open>JOther\<close> stands for
  null, a number, a truth value or an array.
\<close>

definition response_field :: "json \<Rightarrow> error + pystr" where
  "response_field data =
     (case data of
        JObj members \<Rightarrow>
          (case map_of members (asc ''response'') of
             None \<Rightarrow> Inr (strip [])
           | Some (JStr s) \<Rightarrow> Inr (strip s)
           | Some other \<Rightarrow> Inl AttributeError)
      | other \<Rightarrow> Inl AttributeError)"

text \<open>
  The prompt that \<open>ask_ollama\<close> builds, as a function of what it interpolates: the
  retrieved chunks joined by a blank line, the last five turns of the history, one
  rendered turn per line pair, and the question.
\<close>

definition build_prompt :: "pystr list \<Rightarrow> turn list \<Rightarrow> pystr \<Rightarrow> pystr" where
  "build_prompt chunks history question =
     (let context = join [10, 10] chunks;
          history_context = join [10] (map render_turn (py_slice_from history (- 5)))
      in prompt_rules @ context @ prompt_history_heading @ history_context
         @ prompt_question_heading @ question @ prompt_answer_heading)"

text \<open>
  \<open>ask_ollama\<close> returns the answer, or the exception that escapes it, together with
  the state it leaves. Nothing in it catches an exception.
\<close>

definition ask_ollama ::
  "'e env \<Rightarrow> pystr \<Rightarrow> 'e state \<Rightarrow> (error + pystr) \<times> 'e state" where
  "ask_ollama ev question st =
     (case search_relevant_chunks ev (collection st) question 6 of
        Inl e \<Rightarrow> (Inl e, st)
      | Inr chunks \<Rightarrow>
          (let prompt = build_prompt chunks (conversation_history st) question;
               st' = st\<lparr>posted := posted st @ [prompt]\<rparr>
           in case post ev prompt of
                Inl e \<Rightarrow> (Inl e, st')
              | Inr resp \<Rightarrow>
                  if status_code resp \<noteq> 200 then (Inr api_error_message, st')
                  else
                    (case body_json resp of
                       Inl e \<Rightarrow> (Inl e, st')
                     | Inr data \<Rightarrow>
                         (case response_field data of
                            Inl e \<Rightarrow> (Inl e, st')
                          | Inr stripped \<Rightarrow>
                              (let answer = (if stripped = [] then empty_answer_message
                                             else stripped)
                               in (Inr answer,
                                   st'\<lparr>conversation_history :=
                                         conversation_history st'
                                         @ [\<lparr>user = question, bot = answer\<rparr>]\<rparr>))))))"

section \<open>Starting the indexer\<close>

text \<open>
  \<open>ensure_index_background\<close> run by one caller at a time: the module flag
  \<open>_index_started\<close> is read and then set by two separate statements, and a thread
  running \<open>ensure_index\<close> is started in between. The state counts the threads started.
\<close>

record starter =
  index_started :: bool
  threads_started :: nat

definition ensure_index_background :: "starter \<Rightarrow> starter" where
  "ensure_index_background s =
     (if \<not> index_started s
      then s\<lparr>index_started := True, threads_started := threads_started s + 1\<rparr>
      else s)"

section \<open>Concrete collaborators and states\<close>

text \<open>
  Embeddings are natural numbers here. Every embedder below maps each text to 0 and
  every store returns one empty result list; the backends differ: one times out, one
  answers with status 503, one answers 200 with a blank text, one refuses the
  connection.
\<close>

definition timeout_backend :: "nat env" where
  "timeout_backend =
     \<lparr>encode = (\<lambda>s. Inr 0), query = (\<lambda>coll e k. Inr [[]]), post = (\<lambda>p. Inl Timeout)\<rparr>"

definition refusing_backend :: "nat env" where
  "refusing_backend =
     \<lparr>encode = (\<lambda>s. Inr 0), query = (\<lambda>coll e k. Inr [[]]),
      post = (\<lambda>p. Inl ConnectionError)\<rparr>"

definition unavailable_backend :: "nat env" where
  "unavailable_backend =
     \<lparr>encode = (\<lambda>s. Inr 0), query = (\<lambda>coll e k. Inr [[]]),
      post = (\<lambda>p. Inr \<lparr>status_code = 503, body_text = asc ''Service Unavailable'',
                           body_json = Inl JSONDecodeError\<rparr>)\<rparr>"

definition blank_backend :: "nat env" where
  "blank_backend =
     \<lparr>encode = (\<lambda>s. Inr 0), query = (\<lambda>coll e k. Inr [[]]),
      post = (\<lambda>p. Inr \<lparr>status_code = 200, body_text = [],
                           body_json = Inr (JObj [(asc ''response'', JStr (asc ''  ''))])\<rparr>)\<rparr>"

definition echo_backend :: "nat env" where
  "echo_backend =
     \<lparr>encode = (\<lambda>s. Inr 0), query = (\<lambda>coll e k. Inr []),
      post = (\<lambda>p. Inr \<lparr>status_code = 200, body_text = [],
                           body_json = Inr (JObj [(asc ''response'', JStr (asc ''ok''))])\<rparr>)\<rparr>"

definition fresh_state :: "nat state" where
  "fresh_state = \<lparr>collection = [], conversation_history = [], posted = []\<rparr>"



definition town_folder :: "error + directory" where
  "town_folder =
     Inr [(asc ''town.txt'', Inr (asc ''Main Street has three potholes.''))]"

definition broken_folder :: "error + directory" where
  "broken_folder =
     Inr [(asc ''a.txt'', Inr (asc ''first'')),
          (asc ''b.txt'', Inl OSError),
          (asc ''c.txt'', Inr (asc ''third''))]"

section \<open>Chunking: the loop and its result\<close>

subsection \<open>Arithmetic of the number of windows\<close>

lemma ceil_step:
  fixes n s :: nat
  assumes "0 < s" "0 < n"
  shows "(n + s - 1) div s = Suc ((n - s + s - 1) div s)"
proof -
  have e: "n + s - 1 = (n - 1) + s" using assms by arith
  have b: "(n - 1 + s) div s = (n - 1) div s + 1"
    using div_add_self2[of s "n - 1"] assms by simp
  have a: "(n + s - 1) div s = (n - 1) div s + 1" using e b by (simp only:)
  show ?thesis
  proof (cases "n \<le> s")
    case True
    have "(n - 1) div s = 0" using True assms by simp
    moreover have "(n - s + s - 1) div s = 0" using True assms by simp
    ultimately show ?thesis using a by simp
  next
    case False
    have "n - s + s - 1 = n - 1" using False by simp
    then show ?thesis using a by simp
  qed
qed

lemma ceil_covers:
  fixes n s :: nat
  assumes "0 < s"
  shows "n \<le> (n + s - 1) div s * s"
proof -
  have "(n + s - 1) div s * s + (n + s - 1) mod s = n + s - 1" by simp
  moreover have "(n + s - 1) mod s < s" using assms by simp
  ultimately show ?thesis by linarith
qed

lemma ceil_pos:
  fixes n s :: nat
  assumes "0 < s" "0 < n"
  shows "0 < (n + s - 1) div s"
  using ceil_step[OF assms] by simp

subsection \<open>The loop with a positive step\<close>

lemma py_slice_window:
  "0 \<le> start \<Longrightarrow> 0 \<le> n \<Longrightarrow>
   py_slice xs start (start + n) = take (nat n) (drop (nat start) xs)"
  by (auto simp: py_slice_def slice_index_def min_def nat_add_distrib nat_diff_distrib)

text \<open>
  Induction on the distance from the offset to the end of the text: every iteration
  shortens it, and the loop returns the chunks it was given followed by one slice per
  remaining offset.
\<close>

lemma chunk_loop_closed:
  assumes "0 < step" "step = chunk_size - overlap"
  shows "0 \<le> start \<Longrightarrow> chunk_loop xs chunk_size overlap chunks start =
     Some (chunks @
           map (\<lambda>k. py_slice xs (start + int k * step) (start + int k * step + chunk_size))
             [0 ..< (nat (int (length xs) - start) + nat step - 1) div nat step])"
proof (induction "nat (int (length xs) - start)" arbitrary: start chunks rule: less_induct)
  case less
  let ?n = "nat (int (length xs) - start)"
  let ?n' = "nat (int (length xs) - (start + step))"
  let ?s = "nat step"
  show ?case
  proof (cases "start < int (length xs)")
    case False
    then have "?n = 0" by simp
    then have "(?n + ?s - 1) div ?s = 0" using assms by simp
    with False show ?thesis by (subst chunk_loop.simps) simp
  next
    case True
    have lt: "?n' < ?n" using True assms by linarith
    have n': "?n' = ?n - ?s" using assms by linarith
    have "0 < ?s" "0 < ?n" using True assms by simp_all
    from ceil_step[OF this] have cnt: "(?n + ?s - 1) div ?s = Suc ((?n' + ?s - 1) div ?s)"
      unfolding n' .
    have "chunk_loop xs chunk_size overlap chunks start =
          chunk_loop xs chunk_size overlap
            (chunks @ [py_slice xs start (start + chunk_size)]) (start + step)"
      using True assms by (subst chunk_loop.simps) simp
    also have "\<dots> = Some ((chunks @ [py_slice xs start (start + chunk_size)]) @
        map (\<lambda>k. py_slice xs (start + step + int k * step)
                   (start + step + int k * step + chunk_size))
          [0 ..< (?n' + ?s - 1) div ?s])"
      using less(1)[OF lt] less(2) assms by simp
    also have "\<dots> = Some (chunks @
        map (\<lambda>k. py_slice xs (start + int k * step) (start + int k * step + chunk_size))
          [0 ..< (?n + ?s - 1) div ?s])"
      unfolding cnt
      by (simp add: upt_conv_Cons map_Suc_upt[symmetric] algebra_simps del: upt_Suc)
    finally show ?thesis .
  qed
qed

lemma chunk_text_windows:
  assumes "overlap < chunk_size" "0 \<le> overlap"
  shows "chunk_text xs chunk_size overlap =
           Some (windows xs (nat chunk_size) (nat (chunk_size - overlap)))"
proof -
  have "chunk_text xs chunk_size overlap =
     Some ([] @
       map (\<lambda>k. py_slice xs (0 + int k * (chunk_size - overlap))
                  (0 + int k * (chunk_size - overlap) + chunk_size))
         [0 ..< (nat (int (length xs) - 0) + nat (chunk_size - overlap) - 1)
                 div nat (chunk_size - overlap)])"
    unfolding chunk_text_def using assms by (intro chunk_loop_closed) simp_all
  moreover have
    "py_slice xs (int k * (chunk_size - overlap)) (int k * (chunk_size - overlap) + chunk_size)
      = take (nat chunk_size) (drop (k * nat (chunk_size - overlap)) xs)" for k
    using assms by (subst py_slice_window) (simp_all add: nat_mult_distrib)
  ultimately show ?thesis by (simp add: windows_def)
qed

subsection \<open>Properties of the windows\<close>

lemma concat_steps: "concat (map (\<lambda>j. take s (drop (j * s) ys)) [0 ..< k]) = take (k * s) ys"
proof (induction k)
  case 0
  show ?case by simp
next
  case (Suc k)
  have "take (Suc k * s) ys = take (k * s) ys @ take s (drop (k * s) ys)"
    using take_add[of "k * s" s ys] by (simp add: add.commute)
  with Suc show ?case by simp
qed

lemma windows_length: "length (windows xs sz s) = (length xs + s - 1) div s"
  by (simp add: windows_def)

lemma windows_nth:
  "i < length (windows xs sz s) \<Longrightarrow> windows xs sz s ! i = take sz (drop (i * s) xs)"
  by (simp add: windows_def)

lemma windows_bound: "c \<in> set (windows xs sz s) \<Longrightarrow> length c \<le> sz"
  by (auto simp: windows_def)

lemma windows_nonempty:
  assumes "0 < s" "xs \<noteq> []"
  shows "windows xs sz s \<noteq> []"
proof -
  have "0 < length (windows xs sz s)"
    unfolding windows_length using ceil_pos[OF assms(1), of "length xs"] assms(2) by simp
  then show ?thesis by auto
qed

text \<open>
  Dropping from every window but the first the \<open>ov\<close> characters it shares with its
  predecessor, and concatenating, gives the text back.
\<close>

lemma windows_rebuild:
  assumes "0 < s" "ov + s = sz" "xs \<noteq> []"
  shows "hd (windows xs sz s) @ concat (map (drop ov) (tl (windows xs sz s))) = xs"
proof -
  let ?m = "(length xs + s - 1) div s"
  have mpos: "0 < ?m" using ceil_pos[OF assms(1)] assms(3) by simp
  then obtain m' where m': "?m = Suc m'" by (cases ?m) auto
  have upt: "[0 ..< ?m] = 0 # map Suc [0 ..< m']" unfolding m'
    by (simp add: upt_conv_Cons map_Suc_upt del: upt_Suc)
  have first: "hd (windows xs sz s) = take sz xs"
    unfolding windows_def upt by simp
  have "tl (windows xs sz s) = map (\<lambda>j. take sz (drop (Suc j * s) xs)) [0 ..< m']"
    unfolding windows_def upt by (simp add: comp_def)
  moreover have "drop ov (take sz (drop (Suc j * s) xs)) = take s (drop (j * s) (drop sz xs))"
    for j
  proof -
    have a: "ov + Suc j * s = j * s + sz" and b: "sz - ov = s" using assms(2) by simp_all
    show ?thesis by (simp only: drop_take drop_drop a b)
  qed
  ultimately have "map (drop ov) (tl (windows xs sz s))
      = map (\<lambda>j. take s (drop (j * s) (drop sz xs))) [0 ..< m']"
    by simp
  then have "concat (map (drop ov) (tl (windows xs sz s))) = take (m' * s) (drop sz xs)"
    by (simp only: concat_steps)
  then have "hd (windows xs sz s) @ concat (map (drop ov) (tl (windows xs sz s)))
      = take (sz + m' * s) xs"
    using first take_add[of sz "m' * s" xs] by simp
  moreover have "length xs \<le> sz + m' * s"
  proof -
    have "length xs \<le> ?m * s" by (rule ceil_covers[OF assms(1)])
    also have "\<dots> = s + m' * s" unfolding m' by simp
    also have "\<dots> \<le> sz + m' * s" using assms(2) by simp
    finally show ?thesis .
  qed
  ultimately show ?thesis by simp
qed

subsection \<open>The loop with a step that is not positive\<close>

text \<open>
  Partial correctness of the loop: whenever it returns, it was not started at an
  offset \<open>\<le> 0\<close> of a non-empty text with \<open>chunk_size \<le> overlap\<close>. From such a state
  the condition \<open>start < len(text)\<close> holds and the next state is of the same kind.
\<close>

lemma chunk_loop_diverges:
  assumes "chunk_loop xs chunk_size overlap chunks start = Some r"
  shows "\<not> (chunk_size \<le> overlap \<and> start \<le> 0 \<and> xs \<noteq> [])"
proof (rule chunk_loop.raw_induct
    [where P = "\<lambda>t cs ov acc i r. \<not> (cs \<le> ov \<and> i \<le> 0 \<and> t \<noteq> [])", OF _ assms],
    goal_cases)
  case (1 f t cs ov acc i r)
  show ?case
  proof
    assume inv: "cs \<le> ov \<and> i \<le> 0 \<and> t \<noteq> []"
    then have "i < int (length t)" by (cases t) auto
    with 1(2) have "f t cs ov (acc @ [py_slice t i (i + cs)]) (i + (cs - ov)) = Some r"
      by simp
    from 1(1)[OF this] inv show False by auto
  qed
qed

lemma chunk_text_diverges:
  assumes "chunk_size \<le> overlap" "xs \<noteq> []"
  shows "chunk_text xs chunk_size overlap = None"
proof (cases "chunk_text xs chunk_size overlap")
  case None
  then show ?thesis .
next
  case (Some r)
  then have "chunk_loop xs chunk_size overlap [] 0 = Some r" by (simp add: chunk_text_def)
  from chunk_loop_diverges[OF this] assms show ?thesis by simp
qed

subsection \<open>Claims about the chunker\<close>

text \<open>
  C10. On the empty text \<open>chunk_text\<close> returns the empty list of chunks, whatever the
  chunk size and the overlap are: the loop condition fails at once.
\<close>

theorem chunk_text_empty: "chunk_text [] chunk_size overlap = Some []"
  by (simp add: chunk_text_def chunk_loop.simps)

text \<open>
  C5. For \<open>chunk_size > overlap \<ge> 0\<close> and a non-empty text, \<open>chunk_text\<close> returns. Its
  result has at least one chunk, no chunk is longer than \<open>chunk_size\<close>, chunk \<open>i\<close> is
  the window of at most \<open>chunk_size\<close> characters at offset \<open>i * (chunk_size - overlap)\<close>
  (so the chunks are in text order, and each starts \<open>overlap\<close> characters before the
  place where the window before it ends), and the first chunk followed by
  every later chunk without its first \<open>overlap\<close> characters is the text again.
\<close>

theorem chunk_text_correct:
  assumes "0 \<le> overlap" "overlap < chunk_size" "xs \<noteq> []"
  shows "\<exists>chunks. chunk_text xs chunk_size overlap = Some chunks
           \<and> chunks \<noteq> []
           \<and> (\<forall>c \<in> set chunks. length c \<le> nat chunk_size)
           \<and> (\<forall>i < length chunks.
                 chunks ! i = take (nat chunk_size) (drop (i * nat (chunk_size - overlap)) xs))
           \<and> hd chunks @ concat (map (drop (nat overlap)) (tl chunks)) = xs"
proof -
  let ?sz = "nat chunk_size" and ?s = "nat (chunk_size - overlap)"
  let ?w = "windows xs ?sz ?s"
  have s: "0 < ?s" and ov: "nat overlap + ?s = ?sz" using assms by simp_all
  have "chunk_text xs chunk_size overlap = Some ?w"
    using assms by (simp add: chunk_text_windows)
  moreover have "?w \<noteq> []" using s assms(3) by (rule windows_nonempty)
  moreover have "\<forall>c \<in> set ?w. length c \<le> ?sz" by (simp add: windows_bound)
  moreover have "\<forall>i < length ?w. ?w ! i = take ?sz (drop (i * ?s) xs)"
    by (simp add: windows_nth)
  moreover have "hd ?w @ concat (map (drop (nat overlap)) (tl ?w)) = xs"
    using s ov assms(3) by (rule windows_rebuild)
  ultimately show ?thesis by blast
qed

theorem chunk_text_correct_witness:
  "(0::int) \<le> 4 \<and> (4::int) < 6 \<and> asc ''abcdefghij'' \<noteq> []
   \<and> (\<exists>chunks. chunk_text (asc ''abcdefghij'') 6 4 = Some chunks
           \<and> chunks \<noteq> []
           \<and> (\<forall>c \<in> set chunks. length c \<le> nat 6)
           \<and> (\<forall>i < length chunks.
                 chunks ! i = take (nat 6) (drop (i * nat (6 - 4)) (asc ''abcdefghij'')))
           \<and> hd chunks @ concat (map (drop (nat 4)) (tl chunks)) = asc ''abcdefghij'')"
proof -
  have ne: "asc ''abcdefghij'' \<noteq> []" by (simp add: asc_def)
  from chunk_text_correct[of 4 6 "asc ''abcdefghij''"] ne show ?thesis by simp
qed

text \<open>
  C2. \<open>chunk_text\<close> has no guard on its parameters. With \<open>overlap \<ge> chunk_size\<close> the
  offset never moves forward from 0, so the call returns only when the loop is never
  entered, that is on the empty text (with no chunks); on every non-empty text the
  loop does not end.
\<close>

theorem chunk_text_unguarded:
  "chunk_size \<le> overlap \<Longrightarrow>
   chunk_text xs chunk_size overlap = (if xs = [] then Some [] else None)"
  by (simp add: chunk_text_diverges) (simp add: chunk_text_def chunk_loop.simps)

theorem chunk_text_unguarded_witness:
  "(3::int) \<le> 7 \<and> chunk_text (asc ''ab'') 3 7 = None"
  using chunk_text_unguarded[of 3 7 "asc ''ab''"] by (simp add: asc_def)

theorem chunk_text_hangs_counterexample:
  "chunk_text (asc ''a'') 10 10 = None"
  by (rule chunk_text_diverges) (simp_all add: asc_def)

section \<open>Conversation memory\<close>

text \<open>
  C6. The turns that \<open>ask_ollama\<close> reads from the history, \<open>conversation_history[-5:]\<close>,
  are the end of the history, in the order of the history (the history is some older
  turns followed by exactly these), and there are five of them, or all turns when the
  history has fewer than five.
\<close>

theorem recent_turns:
  "\<exists>older. h = older @ py_slice_from h (- 5)
      \<and> length (py_slice_from h (- 5)) = min 5 (length h)"
proof -
  have "h = take (slice_index (length h) (- 5)) h @ py_slice_from h (- 5)"
    by (simp add: py_slice_from_def)
  moreover have "length (py_slice_from h (- 5)) = min 5 (length h)"
    by (auto simp: py_slice_from_def slice_index_def)
  ultimately show ?thesis by blast
qed

lemma recent_of_seven:
  "py_slice_from [t1, t2, t3, t4, t5, t6, t7] (- 5) = [t3, t4, t5, t6, t7]"
  by (simp add: py_slice_from_def slice_index_def)

section \<open>Loading documents: all or nothing\<close>

lemma load_loop_result:
  "load_loop entries docs =
     (case find (\<lambda>(f, r). endswith f (asc ''.txt'') \<and> isl r) entries of
        Some (f, r) \<Rightarrow> Inl (projl r)
      | None \<Rightarrow>
          Inr (docs @ map (\<lambda>(f, r). \<lparr>name = f,
                               content = strip (replace (asc ''  '') (asc '' '')
                                           (replace [10] (asc '' '') (projr r)))\<rparr>)
                     (filter (\<lambda>(f, r). endswith f (asc ''.txt'')) entries)))"
proof (induction entries arbitrary: docs)
  case Nil
  show ?case by simp
next
  case (Cons en entries)
  obtain f r where en: "en = (f, r)" by (cases en)
  show ?case
  proof (cases "endswith f (asc ''.txt'')")
    case False
    then show ?thesis unfolding en by (simp add: Cons split: option.splits)
  next
    case True
    show ?thesis
    proof (cases r)
      case (Inl e)
      with True show ?thesis unfolding en by (simp split: option.splits)
    next
      case (Inr body)
      with True show ?thesis unfolding en by (simp add: Cons split: option.splits)
    qed
  qed
qed

text \<open>
  C7. \<open>load_documents\<close> catches nothing. When the read of some \<open>.txt\<close> file fails, the
  exception of the first such file in listing order leaves \<open>load_documents\<close> and no
  document is returned; when every \<open>.txt\<close> file can be read, the result is one
  document per \<open>.txt\<close> file, in listing order, with the normalised text. Entries
  without the \<open>.txt\<close> suffix are never opened.
\<close>

theorem load_documents_all_or_nothing:
  "load_documents (Inr entries) =
     (case find (\<lambda>(f, r). endswith f (asc ''.txt'') \<and> isl r) entries of
        Some (f, r) \<Rightarrow> Inl (projl r)
      | None \<Rightarrow>
          Inr (map (\<lambda>(f, r). \<lparr>name = f,
                               content = strip (replace (asc ''  '') (asc '' '')
                                           (replace [10] (asc '' '') (projr r)))\<rparr>)
                   (filter (\<lambda>(f, r). endswith f (asc ''.txt'')) entries)))"
  by (simp add: load_documents_def load_loop_result split: option.splits)

theorem load_documents_aborts_counterexample:
  "load_documents broken_folder = Inl OSError"
  by (simp add: load_documents_def broken_folder_def asc_def endswith_def)

section \<open>What the index stores\<close>

text \<open>
  The inner loop stops at the first chunk on which the embedder raises, with that
  exception, and has stored one entry for every chunk before it.
\<close>

lemma find_append_cases:
  "find P (xs @ ys) = (case find P xs of None \<Rightarrow> find P ys | Some x \<Rightarrow> Some x)"
  by (induction xs) simp_all

lemma find_Some_holds: "find P xs = Some x \<Longrightarrow> x \<in> set xs \<and> P x"
  by (induction xs) (auto split: if_splits)

lemma add_chunks_result:
  "add_chunks enc nm ics coll =
     (case find (\<lambda>(n, i, c). isl (enc c)) (map (\<lambda>(i, c). (nm, i, c)) ics) of
        None \<Rightarrow> Inr ()
      | Some (n, i, c) \<Rightarrow> Inl (projl (enc c)),
      coll @ map (\<lambda>(n, i, c). \<lparr>entry_id = n @ asc ''_'' @ str_nat i,
                                 entry_document = n @ asc '': '' @ c,
                                 entry_source = n,
                                 entry_embedding = projr (enc c)\<rparr>)
               (takeWhile (\<lambda>(n, i, c). \<not> isl (enc c)) (map (\<lambda>(i, c). (nm, i, c)) ics)))"
proof (induction ics arbitrary: coll)
  case Nil
  show ?case by simp
next
  case (Cons ic ics)
  obtain i c where ic: "ic = (i, c)" by (cases ic)
  show ?case
  proof (cases "enc c")
    case (Inl e)
    then show ?thesis unfolding ic by simp
  next
    case (Inr emb)
    then show ?thesis unfolding ic by (simp add: Cons)
  qed
qed

text \<open>With the sizes that \<open>ensure_index\<close> passes, chunking always returns.\<close>

lemma chunk_text_defaults: "chunk_text xs 500 50 = Some (windows xs 500 450)"
  using chunk_text_windows[of 50 500 xs] by simp

lemma index_docs_result:
  "index_docs enc docs coll =
     Some (case find (\<lambda>(n, i, c). isl (enc c))
                  (concat (map (\<lambda>d. map (\<lambda>(i, c). (name d, i, c))
                                       (enumerate 0 (windows (content d) 500 450))) docs)) of
             None \<Rightarrow> Inr ()
           | Some (n, i, c) \<Rightarrow> Inl (projl (enc c)),
           coll @ map (\<lambda>(n, i, c). \<lparr>entry_id = n @ asc ''_'' @ str_nat i,
                                      entry_document = n @ asc '': '' @ c,
                                      entry_source = n,
                                      entry_embedding = projr (enc c)\<rparr>)
                    (takeWhile (\<lambda>(n, i, c). \<not> isl (enc c))
                       (concat (map (\<lambda>d. map (\<lambda>(i, c). (name d, i, c))
                                       (enumerate 0 (windows (content d) 500 450))) docs))))"
proof (induction docs arbitrary: coll)
  case Nil
  show ?case by simp
next
  case (Cons d docs)
  let ?P = "\<lambda>(n :: pystr, i :: nat, c :: pystr). isl (enc c)"
  let ?Q = "\<lambda>(n :: pystr, i :: nat, c :: pystr). \<not> isl (enc c)"
  let ?mk = "\<lambda>(n, i, c). \<lparr>entry_id = n @ asc ''_'' @ str_nat i,
                            entry_document = n @ asc '': '' @ c,
                            entry_source = n,
                            entry_embedding = projr (enc c)\<rparr>"
  let ?here = "map (\<lambda>(i, c). (name d, i, c)) (enumerate 0 (windows (content d) 500 450))"
  let ?later = "concat (map (\<lambda>d. map (\<lambda>(i, c). (name d, i, c))
                                       (enumerate 0 (windows (content d) 500 450))) docs)"
  have Q: "?Q = (\<lambda>x. \<not> ?P x)" by auto
  have run: "add_chunks enc (name d) (enumerate 0 (windows (content d) 500 450)) coll =
     (case find ?P ?here of None \<Rightarrow> Inr () | Some (n, i, c) \<Rightarrow> Inl (projl (enc c)),
      coll @ map ?mk (takeWhile ?Q ?here))"
    by (rule add_chunks_result)
  show ?case
  proof (cases "find ?P ?here")
    case None
    then have all: "\<forall>x \<in> set ?here. \<not> ?P x" by (simp only: find_None_iff) blast
    then have tw: "takeWhile ?Q (?here @ ?later) = ?here @ takeWhile ?Q ?later"
      unfolding Q by (intro takeWhile_append2) blast
    have tw0: "takeWhile ?Q ?here = ?here"
      unfolding Q using all by (intro takeWhile_eq_all_conv[THEN iffD2]) blast
    have fd: "find ?P (?here @ ?later) = find ?P ?later"
      using None by (simp only: find_append_cases option.case)
    have run': "add_chunks enc (name d) (enumerate 0 (windows (content d) 500 450)) coll =
        (Inr (), coll @ map ?mk ?here)"
      using run by (simp only: None tw0 option.case)
    have "index_docs enc (d # docs) coll = index_docs enc docs (coll @ map ?mk ?here)"
      by (simp only: index_docs.simps chunk_text_defaults option.case run' prod.case sum.case)
    also have "\<dots> = Some (case find ?P ?later of None \<Rightarrow> Inr ()
                             | Some (n, i, c) \<Rightarrow> Inl (projl (enc c)),
                           (coll @ map ?mk ?here) @ map ?mk (takeWhile ?Q ?later))"
      by (rule Cons)
    finally have "index_docs enc (d # docs) coll
        = Some (case find ?P ?later of None \<Rightarrow> Inr ()
                             | Some (n, i, c) \<Rightarrow> Inl (projl (enc c)),
                           (coll @ map ?mk ?here) @ map ?mk (takeWhile ?Q ?later))" .
    moreover have "concat (map (\<lambda>d. map (\<lambda>(i, c). (name d, i, c))
                                       (enumerate 0 (windows (content d) 500 450))) (d # docs))
        = ?here @ ?later" by simp
    ultimately show ?thesis by (simp only: fd tw map_append append_assoc)
  next
    case (Some x)
    then have mem: "x \<in> set ?here" and px: "?P x" using find_Some_holds[OF Some] by blast+
    have tw: "takeWhile ?Q (?here @ ?later) = takeWhile ?Q ?here"
      unfolding Q using mem px by (intro takeWhile_append1[where x = x]) auto
    have fd: "find ?P (?here @ ?later) = Some x"
      using Some by (simp only: find_append_cases option.case)
    obtain n i c where x: "x = (n, i, c)" by (cases x)
    have run': "add_chunks enc (name d) (enumerate 0 (windows (content d) 500 450)) coll =
        (Inl (projl (enc c)), coll @ map ?mk (takeWhile ?Q ?here))"
      using run by (simp only: Some x option.case prod.case)
    have "index_docs enc (d # docs) coll
          = Some (Inl (projl (enc c)), coll @ map ?mk (takeWhile ?Q ?here))"
      by (simp only: index_docs.simps chunk_text_defaults option.case run' prod.case sum.case)
    moreover have "concat (map (\<lambda>d. map (\<lambda>(i, c). (name d, i, c))
                                       (enumerate 0 (windows (content d) 500 450))) (d # docs))
        = ?here @ ?later" by simp
    ultimately show ?thesis by (simp only: fd tw x option.case prod.case)
  qed
qed

lemma town_loaded:
  "load_documents town_folder
     = Inr [\<lparr>name = asc ''town.txt'', content = asc ''Main Street has three potholes.''\<rparr>]"
  by code_simp

text \<open>
  C9. Started on an empty collection with the documents \<open>docs\<close> loaded, \<open>ensure_index\<close>
  returns. Take every document in order and every index \<open>i\<close> of its chunks in order:
  up to the first chunk on which the embedder raises (all of them when it never
  raises) the collection holds, in that order, one entry per chunk, whose text is not
  the chunk alone but the document name, a colon, a space and the chunk, whose id is
  the name, an underscore and \<open>i\<close>, whose source is the name and whose embedding is
  that of the chunk alone. The run ends normally when the embedder never raises, and
  with the embedder's exception otherwise.
\<close>

theorem ensure_index_stores_named_chunks:
  assumes "load_documents folder = Inr docs"
  shows "ensure_index ev folder [] =
     Some (case find (\<lambda>(n, i, c). isl (encode ev c))
                  (concat (map (\<lambda>d. map (\<lambda>(i, c). (name d, i, c))
                                       (enumerate 0 (windows (content d) 500 450))) docs)) of
             None \<Rightarrow> Inr ()
           | Some (n, i, c) \<Rightarrow> Inl (projl (encode ev c)),
           map (\<lambda>(n, i, c). \<lparr>entry_id = n @ asc ''_'' @ str_nat i,
                              entry_document = n @ asc '': '' @ c,
                              entry_source = n,
                              entry_embedding = projr (encode ev c)\<rparr>)
             (takeWhile (\<lambda>(n, i, c). \<not> isl (encode ev c))
                (concat (map (\<lambda>d. map (\<lambda>(i, c). (name d, i, c))
                                (enumerate 0 (windows (content d) 500 450))) docs))))"
  using assms by (simp add: ensure_index_def index_docs_result)

theorem ensure_index_stores_named_chunks_witness:
  "load_documents town_folder
     = Inr [\<lparr>name = asc ''town.txt'', content = asc ''Main Street has three potholes.''\<rparr>]
   \<and> ensure_index echo_backend town_folder []
     = Some (Inr (),
         [\<lparr>entry_id = [116, 111, 119, 110, 46, 116, 120, 116, 95, 48],
           entry_document =
             [116, 111, 119, 110, 46, 116, 120, 116, 58, 32, 77, 97, 105, 110, 32, 83,
              116, 114, 101, 101, 116, 32, 104, 97, 115, 32, 116, 104, 114, 101, 101,
              32, 112, 111, 116, 104, 111, 108, 101, 115, 46],
           entry_source = [116, 111, 119, 110, 46, 116, 120, 116],
           entry_embedding = 0\<rparr>])"
  using ensure_index_stores_named_chunks[OF town_loaded, of echo_backend] town_loaded
  by (simp add: windows_def echo_backend_def str_nat.simps[of 0] asc_def)

section \<open>Answering: failures of the backend, the history and the prompt\<close>

lemma search_unavailable:
  "search_relevant_chunks unavailable_backend (collection fresh_state) q 6 = Inr []"
  by (simp add: search_relevant_chunks_def unavailable_backend_def)

lemma search_timeout:
  "search_relevant_chunks timeout_backend (collection fresh_state) q 6 = Inr []"
  by (simp add: search_relevant_chunks_def timeout_backend_def)

lemma search_refusing:
  "search_relevant_chunks refusing_backend (collection fresh_state) q 6 = Inr []"
  by (simp add: search_relevant_chunks_def refusing_backend_def)

lemma search_blank:
  "search_relevant_chunks blank_backend (collection fresh_state) q 6 = Inr []"
  by (simp add: search_relevant_chunks_def blank_backend_def)

lemma search_echo:
  "search_relevant_chunks echo_backend (collection fresh_state) q 6 = Inr []"
  by (simp add: search_relevant_chunks_def echo_backend_def)

lemma blank_field: "response_field (JObj [(asc ''response'', JStr (asc ''  ''))]) = Inr []"
  by (simp add: response_field_def asc_def strip_def isspace_def)

lemma echo_field:
  "response_field (JObj [(asc ''response'', JStr (asc ''ok''))]) = Inr (asc ''ok'')"
  by (simp add: response_field_def asc_def strip_def isspace_def)

text \<open>
  C1. When retrieval has succeeded and the backend answers with a status other than
  200, \<open>ask_ollama\<close> returns the fixed message \<open>api_error_message\<close> and raises
  nothing. An exception of the HTTP call itself (a refused connection, a timeout) is
  not caught: it leaves \<open>ask_ollama\<close> as it is.
\<close>

theorem ask_ollama_generation_failure:
  assumes "search_relevant_chunks ev (collection st) question 6 = Inr chunks"
  shows "(\<forall>r. post ev (build_prompt chunks (conversation_history st) question) = Inr r
              \<and> status_code r \<noteq> 200
            \<longrightarrow> fst (ask_ollama ev question st) = Inr api_error_message)
       \<and> (\<forall>e. post ev (build_prompt chunks (conversation_history st) question) = Inl e
            \<longrightarrow> fst (ask_ollama ev question st) = Inl e)"
  using assms by (simp add: ask_ollama_def Let_def)

theorem ask_ollama_generation_failure_witness:
  "search_relevant_chunks unavailable_backend (collection fresh_state) (asc ''Q1'') 6 = Inr []
   \<and> status_code \<lparr>status_code = 503, body_text = asc ''Service Unavailable'',
                     body_json = Inl JSONDecodeError\<rparr> \<noteq> 200
   \<and> post unavailable_backend (build_prompt [] (conversation_history fresh_state) (asc ''Q1''))
       = Inr \<lparr>status_code = 503, body_text = asc ''Service Unavailable'',
               body_json = Inl JSONDecodeError\<rparr>
   \<and> fst (ask_ollama unavailable_backend (asc ''Q1'') fresh_state) = Inr api_error_message
   \<and> search_relevant_chunks refusing_backend (collection fresh_state) (asc ''Q1'') 6 = Inr []
   \<and> post refusing_backend (build_prompt [] (conversation_history fresh_state) (asc ''Q1''))
       = Inl ConnectionError
   \<and> fst (ask_ollama refusing_backend (asc ''Q1'') fresh_state) = Inl ConnectionError"
proof -
  have p1:
    "post unavailable_backend (build_prompt [] (conversation_history fresh_state) (asc ''Q1''))
       = Inr \<lparr>status_code = 503, body_text = asc ''Service Unavailable'',
               body_json = Inl JSONDecodeError\<rparr>"
    by (simp add: unavailable_backend_def)
  have p2:
    "post refusing_backend (build_prompt [] (conversation_history fresh_state) (asc ''Q1''))
       = Inl ConnectionError"
    by (simp add: refusing_backend_def)
  from ask_ollama_generation_failure[OF search_unavailable[of "asc ''Q1''"]] p1
  have a: "fst (ask_ollama unavailable_backend (asc ''Q1'') fresh_state) = Inr api_error_message"
    by simp
  from ask_ollama_generation_failure[OF search_refusing[of "asc ''Q1''"]] p2
  have b: "fst (ask_ollama refusing_backend (asc ''Q1'') fresh_state) = Inl ConnectionError"
    by simp
  show ?thesis using a b p1 p2 search_unavailable search_refusing by simp
qed

theorem ask_ollama_raises_counterexample:
  "fst (ask_ollama timeout_backend (asc ''Q1'') fresh_state) = Inl Timeout"
  by (simp add: ask_ollama_def search_timeout Let_def) (simp add: timeout_backend_def)

text \<open>
  C3. When retrieval has succeeded and the backend fails, no turn is recorded: after an
  exception of the HTTP call (which leaves \<open>ask_ollama\<close>) and after an answer with a
  status other than 200 (for which \<open>api_error_message\<close> is returned) the conversation
  history is what it was. A turn with a fixed message as its answer is recorded in one
  case only: the backend answers 200 and the generated text is empty once stripped;
  then \<open>empty_answer_message\<close> is returned and recorded with the question.
\<close>

theorem ask_ollama_history:
  assumes "search_relevant_chunks ev (collection st) question 6 = Inr chunks"
  shows "(\<forall>e. post ev (build_prompt chunks (conversation_history st) question) = Inl e
            \<longrightarrow> fst (ask_ollama ev question st) = Inl e
                \<and> conversation_history (snd (ask_ollama ev question st))
                    = conversation_history st)
       \<and> (\<forall>r. post ev (build_prompt chunks (conversation_history st) question) = Inr r
              \<and> status_code r \<noteq> 200
            \<longrightarrow> fst (ask_ollama ev question st) = Inr api_error_message
                \<and> conversation_history (snd (ask_ollama ev question st))
                    = conversation_history st)
       \<and> (\<forall>r data. post ev (build_prompt chunks (conversation_history st) question) = Inr r
              \<and> status_code r = 200 \<and> body_json r = Inr data
              \<and> response_field data = Inr []
            \<longrightarrow> fst (ask_ollama ev question st) = Inr empty_answer_message
                \<and> conversation_history (snd (ask_ollama ev question st))
                    = conversation_history st
                      @ [\<lparr>user = question, bot = empty_answer_message\<rparr>])"
  using assms by (simp add: ask_ollama_def Let_def)

theorem ask_ollama_history_witness:
  "search_relevant_chunks timeout_backend (collection fresh_state) (asc ''Q1'') 6 = Inr []
   \<and> post timeout_backend (build_prompt [] (conversation_history fresh_state) (asc ''Q1''))
       = Inl Timeout
   \<and> conversation_history (snd (ask_ollama timeout_backend (asc ''Q1'') fresh_state))
       = conversation_history fresh_state
   \<and> search_relevant_chunks unavailable_backend (collection fresh_state) (asc ''Q1'') 6 = Inr []
   \<and> post unavailable_backend (build_prompt [] (conversation_history fresh_state) (asc ''Q1''))
       = Inr \<lparr>status_code = 503, body_text = asc ''Service Unavailable'',
               body_json = Inl JSONDecodeError\<rparr>
   \<and> conversation_history (snd (ask_ollama unavailable_backend (asc ''Q1'') fresh_state))
       = conversation_history fresh_state
   \<and> search_relevant_chunks blank_backend (collection fresh_state) (asc ''Q1'') 6 = Inr []
   \<and> post blank_backend (build_prompt [] (conversation_history fresh_state) (asc ''Q1''))
       = Inr \<lparr>status_code = 200, body_text = [],
               body_json = Inr (JObj [(asc ''response'', JStr (asc ''  ''))])\<rparr>
   \<and> response_field (JObj [(asc ''response'', JStr (asc ''  ''))]) = Inr []
   \<and> fst (ask_ollama blank_backend (asc ''Q1'') fresh_state) = Inr empty_answer_message
   \<and> conversation_history (snd (ask_ollama blank_backend (asc ''Q1'') fresh_state))
       = conversation_history fresh_state
         @ [\<lparr>user = asc ''Q1'', bot = empty_answer_message\<rparr>]"
proof -
  have p1:
    "post timeout_backend (build_prompt [] (conversation_history fresh_state) (asc ''Q1''))
       = Inl Timeout"
    by (simp add: timeout_backend_def)
  have p2:
    "post unavailable_backend (build_prompt [] (conversation_history fresh_state) (asc ''Q1''))
       = Inr \<lparr>status_code = 503, body_text = asc ''Service Unavailable'',
               body_json = Inl JSONDecodeError\<rparr>"
    by (simp add: unavailable_backend_def)
  have p3:
    "post blank_backend (build_prompt [] (conversation_history fresh_state) (asc ''Q1''))
       = Inr \<lparr>status_code = 200, body_text = [],
               body_json = Inr (JObj [(asc ''response'', JStr (asc ''  ''))])\<rparr>"
    by (simp add: blank_backend_def)
  from ask_ollama_history[OF search_timeout[of "asc ''Q1''"]] p1
  have a: "conversation_history (snd (ask_ollama timeout_backend (asc ''Q1'') fresh_state))
       = conversation_history fresh_state"
    by simp
  from ask_ollama_history[OF search_unavailable[of "asc ''Q1''"]] p2
  have b: "conversation_history (snd (ask_ollama unavailable_backend (asc ''Q1'') fresh_state))
       = conversation_history fresh_state"
    by simp
  from ask_ollama_history[OF search_blank[of "asc ''Q1''"]] p3 blank_field
  have c: "fst (ask_ollama blank_backend (asc ''Q1'') fresh_state) = Inr empty_answer_message
     \<and> conversation_history (snd (ask_ollama blank_backend (asc ''Q1'') fresh_state))
       = conversation_history fresh_state
         @ [\<lparr>user = asc ''Q1'', bot = empty_answer_message\<rparr>]"
    by simp
  show ?thesis
    using a b c p1 p2 p3 blank_field search_timeout search_unavailable search_blank
    by simp
qed

theorem ask_ollama_unrecorded_counterexample:
  "fst (ask_ollama unavailable_backend (asc ''Q1'') fresh_state) = Inr api_error_message
   \<and> conversation_history (snd (ask_ollama unavailable_backend (asc ''Q1'') fresh_state)) = []"
  by (simp add: ask_ollama_def search_unavailable Let_def)
     (simp add: unavailable_backend_def fresh_state_def)








lemma echo_answered:
  "ask_ollama echo_backend (asc ''Q1'') fresh_state
     = (Inr (asc ''ok''),
        \<lparr>collection = [],
          conversation_history = [\<lparr>user = asc ''Q1'', bot = asc ''ok''\<rparr>],
          posted = [build_prompt [] [] (asc ''Q1'')]\<rparr>)"
proof -
  have "asc ''ok'' \<noteq> []" by (simp add: asc_def)
  then show ?thesis
    by (simp add: ask_ollama_def search_echo Let_def)
       (simp add: echo_backend_def echo_field fresh_state_def Let_def)
qed

section \<open>Starting the indexer, one caller after another\<close>

text \<open>
  Called any number of times in sequence, \<open>ensure_index_background\<close> starts one thread.
  Nothing is said here about callers that run at the same time.
\<close>

lemma ensure_index_background_started:
  "index_started s \<Longrightarrow> ensure_index_background s = s"
  by (simp add: ensure_index_background_def)

lemma ensure_index_background_repeat:
  "index_started s \<Longrightarrow> (ensure_index_background ^^ n) s = s"
  by (induction n) (simp_all add: ensure_index_background_started)

lemma ensure_index_background_once:
  "threads_started ((ensure_index_background ^^ Suc n)
      \<lparr>index_started = False, threads_started = 0\<rparr>) = 1"
proof -
  let ?s1 = "ensure_index_background \<lparr>index_started = False, threads_started = 0\<rparr>"
  have s1: "?s1 = \<lparr>index_started = True, threads_started = 1\<rparr>"
    by (simp add: ensure_index_background_def)
  have "(ensure_index_background ^^ Suc n) \<lparr>index_started = False, threads_started = 0\<rparr>
        = (ensure_index_background ^^ n) ?s1"
    by (simp only: funpow_Suc_right comp_def)
  also have "\<dots> = ?s1" by (rule ensure_index_background_repeat) (simp add: s1)
  finally show ?thesis by (simp add: s1)
qed

end
